theory Spec2Isabelle
  imports Main "HOL-Library.Word" "HOL-Library.Signed_Division" "HOL-Library.Sublist"
begin

section \<open>The pgcapture PostgreSQL source: shared data model\<close>

text \<open>
  The repository holds two revisions of the logical-replication source:
  \<^item> \<^verbatim>\<open>src/unnamed/part_000\<close>: \<^verbatim>\<open>PGXSource\<close> runs its own goroutine around a looping
    \<^verbatim>\<open>fetching\<close> and has \<^verbatim>\<open>Stop\<close>; its definitions carry the suffix \<open>0\<close> below;
  \<^item> \<^verbatim>\<open>src/pkg/source/postgres.go\<close>: \<^verbatim>\<open>PGXSource\<close> embeds \<^verbatim>\<open>BaseSource\<close> and
    \<^verbatim>\<open>fetching\<close> is one read step; its definitions carry the suffix \<open>1\<close>.
  \<^verbatim>\<open>Setup\<close>, \<^verbatim>\<open>Commit\<close>, \<^verbatim>\<open>committedLSN\<close> and \<^verbatim>\<open>PGTime2Time\<close> are the same text in both
  files and are modelled once.

  Everything the code obtains from outside (the results of connecting, of
  statements, of the replication protocol, of the decoder and of the clock) is
  an explicit argument: a record of the results the calls of one run return.
\<close>

subsection \<open>Go values\<close>

text \<open>
  A Go \<^verbatim>\<open>error\<close> value. The only error the source constructs itself is
  \<^verbatim>\<open>errors.New("unexpected message")\<close>; all others come from the libraries.
  \<^verbatim>\<open>pgconn.Timeout(err)\<close> tells a deadline expiry from the rest.
\<close>

datatype error = errors_New string | deadline_exceeded

fun Timeout :: "error \<Rightarrow> bool" where
  "Timeout deadline_exceeded = True"
| "Timeout (errors_New _) = False"

text \<open>
  \<^verbatim>\<open>time.Time\<close> as an instant: nanoseconds since 1970-01-01T00:00:00Z.
  \<^verbatim>\<open>time.Unix(sec, nsec)\<close> is the instant \<open>sec\<close> seconds and \<open>nsec\<close> nanoseconds
  after the Unix epoch (any \<open>nsec\<close> is carried into the seconds);
  \<^verbatim>\<open>time.Time{}\<close> is January 1, year 1, 00:00:00 UTC.
\<close>

type_synonym time = int

definition time_Unix :: "int \<Rightarrow> int \<Rightarrow> time" where
  "time_Unix sec nsec = sec * 1000000000 + nsec"

definition zero_time :: time where
  "zero_time = time_Unix (- 62135596800) 0"

definition time_After :: "time \<Rightarrow> time \<Rightarrow> bool" where
  "time_After t u = (u < t)"

definition time_Add :: "time \<Rightarrow> int \<Rightarrow> time" where
  "time_Add t d = t + d"

definition time_Second :: int where
  "time_Second = 1000000000"

text \<open>\<^verbatim>\<open>t.Unix()\<close> and \<^verbatim>\<open>t.Nanosecond()\<close>: whole seconds since the epoch and
  the nanoseconds within the second.\<close>

definition unix_seconds :: "time \<Rightarrow> int" where
  "unix_seconds t = t div 1000000000"

definition nanosecond :: "time \<Rightarrow> int" where
  "nanosecond t = t mod 1000000000"

type_synonym lsn = "64 word"
type_synonym byte = "8 word"

text \<open>A connection handle points at a connection that is open or closed;
  a \<^verbatim>\<open>nil\<close> handle is \<open>None\<close>.\<close>

datatype conn = Open | Closed

subsection \<open>The struct\<close>

text \<open>
  The fields both revisions share. \<^verbatim>\<open>schema\<close> and \<^verbatim>\<open>decoder\<close> are handles of the
  \<^verbatim>\<open>decode\<close> package; what their methods return is part of the environment.
\<close>

record PGXSource =
  SetupConnStr :: string
  ReplConnStr :: string
  ReplSlot :: string
  CreateSlot :: bool
  setupConn :: "conn option"
  replConn :: "conn option"
  ackLsn :: lsn

record Checkpoint =
  LSN :: lsn
  Time :: time

definition OutputPlugin :: string where
  "OutputPlugin = ''pglogical_output''"

definition pgLogicalParam :: "string list" where
  "pgLogicalParam =
    [''min_proto_version '' @ [CHR 0x27] @ ''1'' @ [CHR 0x27],
     ''max_proto_version '' @ [CHR 0x27] @ ''1'' @ [CHR 0x27],
     ''startup_params_format '' @ [CHR 0x27] @ ''1'' @ [CHR 0x27],
     [CHR 0x22] @ ''binary.want_binary_basetypes'' @ [CHR 0x22] @ '' '' @ [CHR 0x27] @ ''1'' @ [CHR 0x27],
     [CHR 0x22] @ ''binary.basetypes_major_version'' @ [CHR 0x22] @ '' '' @ [CHR 0x27] @ ''906'' @ [CHR 0x27],
     [CHR 0x22] @ ''binary.bigendian'' @ [CHR 0x22] @ '' '' @ [CHR 0x27] @ ''1'' @ [CHR 0x27]]"

subsection \<open>Time conversion\<close>

definition microInSecond :: int where
  "microInSecond = 1000000"

definition nsInSecond :: int where
  "nsInSecond = 1000"

definition microsecFromUnixEpochToY2K :: "64 word" where
  "microsecFromUnixEpochToY2K = 946684800 * 1000000"

text \<open>
  \<^verbatim>\<open>micro := microsecFromUnixEpochToY2K + int64(ts)\<close>: the conversion to \<^verbatim>\<open>int64\<close>
  keeps the 64 bits and the addition wraps, so the sum is taken on words and
  read as two's complement. Go's \<^verbatim>\<open>/\<close> and \<^verbatim>\<open>%\<close> truncate towards zero
  (\<open>sdiv\<close>, \<open>smod\<close>). The quotient and the scaled remainder are within \<^verbatim>\<open>int64\<close>.
\<close>

definition PGTime2Time :: "64 word \<Rightarrow> time" where
  "PGTime2Time ts =
    (let micro = sint (microsecFromUnixEpochToY2K + ts)
     in time_Unix (micro sdiv microInSecond) ((micro smod microInSecond) * nsInSecond))"

subsection \<open>Setup\<close>

text \<open>
  Calls that leave the process during \<^verbatim>\<open>Setup\<close> and \<^verbatim>\<open>Capture\<close>, in the order made.
  The SQL texts \<^verbatim>\<open>sql.InstallExtension\<close> and \<^verbatim>\<open>sql.CreateLogicalSlot\<close> are constants
  of a package outside \<^verbatim>\<open>src/\<close>; they are named, not spelled out.
\<close>

datatype statement = InstallExtension | CreateLogicalSlot

datatype call =
    pgx_Connect string
  | schema_RefreshType
  | setupConn_Exec statement "string list"
  | pgconn_Connect string
  | IdentifySystem
  | StartReplication string lsn "string list"
  | setupConn_Close
  | replConn_Close
  | BaseSource_capture

text \<open>What the calls of one \<^verbatim>\<open>Setup\<close> return (\<open>None\<close> is a \<^verbatim>\<open>nil\<close> error).\<close>

record setup_env =
  connect_err :: "error option"
  refresh_err :: "error option"
  install_err :: "error option"
  create_slot_err :: "error option"

definition Setup ::
  "setup_env \<Rightarrow> 'a PGXSource_scheme \<Rightarrow> call list \<times> 'a PGXSource_scheme \<times> error option" where
  "Setup env p =
    (case connect_err env of
       Some e \<Rightarrow> ([pgx_Connect (SetupConnStr p)], p\<lparr>setupConn := None\<rparr>, Some e)
     | None \<Rightarrow>
        (let p1 = p\<lparr>setupConn := Some Open\<rparr>;
             cs1 = [pgx_Connect (SetupConnStr p), schema_RefreshType]
         in case refresh_err env of
              Some e \<Rightarrow> (cs1, p1, Some e)
            | None \<Rightarrow>
               (let cs2 = cs1 @ [setupConn_Exec InstallExtension []]
                in case install_err env of
                     Some e \<Rightarrow> (cs2, p1, None)
                   | None \<Rightarrow>
                      (if CreateSlot p
                       then (cs2 @ [setupConn_Exec CreateLogicalSlot [ReplSlot p, OutputPlugin]],
                             p1, create_slot_err env)
                       else (cs2, p1, None)))))"

subsection \<open>Commit, committedLSN\<close>

definition Commit :: "Checkpoint \<Rightarrow> 'a PGXSource_scheme \<Rightarrow> 'a PGXSource_scheme" where
  "Commit cp p = p\<lparr>ackLsn := LSN cp\<rparr>"

definition committedLSN :: "'a PGXSource_scheme \<Rightarrow> lsn" where
  "committedLSN p = ackLsn p"

subsection \<open>Capture\<close>

record IdentifySystemResult =
  SystemID :: string
  Timeline :: "32 word"
  XLogPos :: lsn
  DBName :: string

text \<open>What the calls of one \<^verbatim>\<open>Capture\<close> return.\<close>

record capture_env =
  repl_connect_err :: "error option"
  identify :: "error + IdentifySystemResult"
  start_err :: "error option"

text \<open>The choice of \<^verbatim>\<open>requestLSN\<close>, the same text in both revisions.\<close>

definition requestLSN :: "Checkpoint \<Rightarrow> IdentifySystemResult \<Rightarrow> lsn" where
  "requestLSN cp ident = (if LSN cp \<noteq> 0 then LSN cp else XLogPos ident)"

text \<open>
  \<^verbatim>\<open>part_000\<close>: the struct has the commit time, the stop flag (an \<^verbatim>\<open>int64\<close> that
  holds 0 or 1) and the stop channel, which is only ever closed:
  \<open>None\<close> is \<^verbatim>\<open>nil\<close>, \<open>Some c\<close> a channel that is closed iff \<open>c\<close>.
\<close>

record PGXSource0 = PGXSource +
  commitTime :: time
  stopped :: int
  stop :: "bool option"

text \<open>A buffered \<^verbatim>\<open>chan Change\<close>: the items not yet received, and whether it
  was closed. Closing keeps the buffer.\<close>

record 'x chan =
  buf :: "'x list"
  closed :: bool

definition make_chan :: "'x chan" where
  "make_chan = \<lparr>buf = [], closed = False\<rparr>"

definition chan_capacity :: nat where
  "chan_capacity = 100"

text \<open>
  \<^verbatim>\<open>Capture\<close> of \<^verbatim>\<open>part_000\<close>, up to the \<^verbatim>\<open>go\<close> statement: every error return
  is a plain \<^verbatim>\<open>return nil, err\<close>. The result is the error; when it is \<^verbatim>\<open>nil\<close>
  (\<open>None\<close>) the caller gets the new channel \<open>make_chan\<close> and the goroutine of the
  next section starts on it (\<open>spawn\<close>).
\<close>

definition Capture0 ::
  "capture_env \<Rightarrow> Checkpoint \<Rightarrow> 'a PGXSource0_scheme
    \<Rightarrow> call list \<times> 'a PGXSource0_scheme \<times> error option" where
  "Capture0 env cp p =
    (case repl_connect_err env of
       Some e \<Rightarrow> ([pgconn_Connect (ReplConnStr p)], p\<lparr>replConn := None\<rparr>, Some e)
     | None \<Rightarrow>
        (let p1 = p\<lparr>replConn := Some Open\<rparr>;
             cs1 = [pgconn_Connect (ReplConnStr p), IdentifySystem]
         in case identify env of
              Inl e \<Rightarrow> (cs1, p1, Some e)
            | Inr ident \<Rightarrow>
               (let cs2 = cs1 @ [StartReplication (ReplSlot p) (requestLSN cp ident) pgLogicalParam]
                in case start_err env of
                     Some e \<Rightarrow> (cs2, p1, Some e)
                   | None \<Rightarrow>
                      (cs2, p1\<lparr>ackLsn := requestLSN cp ident, stop := Some False\<rparr>, None))))"

text \<open>\<^verbatim>\<open>cleanup\<close> of \<^verbatim>\<open>part_000\<close> closes each connection that is not \<^verbatim>\<open>nil\<close> and
  sets the handle to \<^verbatim>\<open>nil\<close>.\<close>

definition cleanup0 :: "'a PGXSource_scheme \<Rightarrow> call list \<times> 'a PGXSource_scheme" where
  "cleanup0 p =
    (let (cs1, p1) = (if setupConn p \<noteq> None then ([setupConn_Close], p\<lparr>setupConn := None\<rparr>)
                      else ([], p));
         (cs2, p2) = (if replConn p1 \<noteq> None then ([replConn_Close], p1\<lparr>replConn := None\<rparr>)
                      else ([], p1))
     in (cs1 @ cs2, p2))"

text \<open>
  \<^verbatim>\<open>postgres.go\<close>: the struct has the next report time; \<^verbatim>\<open>cleanup\<close> closes the
  connections and keeps the handles; \<^verbatim>\<open>Capture\<close> defers a \<^verbatim>\<open>cleanup\<close> that runs when
  the named result \<^verbatim>\<open>err\<close> is not \<^verbatim>\<open>nil\<close>, and ends in \<^verbatim>\<open>BaseSource.capture\<close>, which
  is outside \<^verbatim>\<open>src/\<close>: the error it returns is the argument \<open>base_err\<close>.
\<close>

record PGXSource1 = PGXSource +
  nextReportTime :: time

definition cleanup1 :: "'a PGXSource_scheme \<Rightarrow> call list \<times> 'a PGXSource_scheme" where
  "cleanup1 p =
    (let (cs1, p1) = (if setupConn p \<noteq> None then ([setupConn_Close], p\<lparr>setupConn := Some Closed\<rparr>)
                      else ([], p));
         (cs2, p2) = (if replConn p1 \<noteq> None then ([replConn_Close], p1\<lparr>replConn := Some Closed\<rparr>)
                      else ([], p1))
     in (cs1 @ cs2, p2))"

definition Capture1_body ::
  "capture_env \<Rightarrow> error option \<Rightarrow> Checkpoint \<Rightarrow> 'a PGXSource_scheme
    \<Rightarrow> call list \<times> 'a PGXSource_scheme \<times> error option" where
  "Capture1_body env base_err cp p =
    (case repl_connect_err env of
       Some e \<Rightarrow> ([pgconn_Connect (ReplConnStr p)], p\<lparr>replConn := None\<rparr>, Some e)
     | None \<Rightarrow>
        (let p1 = p\<lparr>replConn := Some Open\<rparr>;
             cs1 = [pgconn_Connect (ReplConnStr p), IdentifySystem]
         in case identify env of
              Inl e \<Rightarrow> (cs1, p1, Some e)
            | Inr ident \<Rightarrow>
               (let cs2 = cs1 @ [StartReplication (ReplSlot p) (requestLSN cp ident) pgLogicalParam]
                in case start_err env of
                     Some e \<Rightarrow> (cs2, p1, Some e)
                   | None \<Rightarrow>
                      (cs2 @ [BaseSource_capture], p1\<lparr>ackLsn := requestLSN cp ident\<rparr>,
                       base_err))))"

definition Capture1 ::
  "capture_env \<Rightarrow> error option \<Rightarrow> Checkpoint \<Rightarrow> 'a PGXSource_scheme
    \<Rightarrow> call list \<times> 'a PGXSource_scheme \<times> error option" where
  "Capture1 env base_err cp p =
    (case Capture1_body env base_err cp p of
       (cs, p1, Some e) \<Rightarrow> (let (cs2, p2) = cleanup1 p1 in (cs @ cs2, p2, Some e))
     | (cs, p1, None) \<Rightarrow> (cs, p1, None))"

text \<open>Whether a handle points at a connection that is still open.\<close>

definition is_open :: "conn option \<Rightarrow> bool" where
  "is_open c = (c = Some Open)"

section \<open>The fetch loop\<close>

subsection \<open>Messages\<close>

text \<open>
  A message of the replication connection is a \<^verbatim>\<open>*pgproto3.CopyData\<close> with its bytes,
  or of another kind. The first byte of the data tells a keepalive from WAL data.
\<close>

datatype BackendMessage = CopyData "byte list" | OtherMessage

definition PrimaryKeepaliveMessageByteID :: byte where
  "PrimaryKeepaliveMessageByteID = 0x6B"

definition XLogDataByteID :: byte where
  "XLogDataByteID = 0x77"

text \<open>Of the parsed messages, the fields the source reads.\<close>

record PrimaryKeepaliveMessage =
  ReplyRequested :: bool

record XLogData =
  WALStart :: lsn
  WALData :: "byte list"

text \<open>
  A decoded \<^verbatim>\<open>pb.Message\<close>, by the cases of its \<^verbatim>\<open>Type\<close> that the source tells apart:
  a begin with its commit time, a change (of a type \<open>'c\<close> declared outside
  \<^verbatim>\<open>src/\<close>), or anything else.
\<close>

datatype 'c Message = Message_Begin "64 word" | Message_Change 'c | Message_Commit

fun GetChange :: "'c Message \<Rightarrow> 'c option" where
  "GetChange (Message_Change c) = Some c"
| "GetChange _ = None"

record 'c Change =
  Checkpoint :: Checkpoint
  Message :: "'c Message option"

text \<open>The zero value of \<^verbatim>\<open>Change\<close>.\<close>

definition zero_Change :: "'c Change" where
  "zero_Change = \<lparr>Checkpoint = \<lparr>LSN = 0, Time = zero_time\<rparr>, Message = None\<rparr>"

text \<open>
  The pure functions of other packages that the loop calls: the two parsers of
  \<^verbatim>\<open>pglogrepl\<close> and the two classifiers of \<^verbatim>\<open>decode\<close>.
\<close>

record 'c deps =
  ParsePrimaryKeepaliveMessage :: "byte list \<Rightarrow> error + PrimaryKeepaliveMessage"
  ParseXLogData :: "byte list \<Rightarrow> error + XLogData"
  Ignore :: "'c \<Rightarrow> bool"
  IsDDL :: "'c \<Rightarrow> bool"

text \<open>
  What the world answers during one pass through the loop body: the clock at the
  deadline check, the result of the status update and the clock after it (when
  one is sent), the result of \<^verbatim>\<open>ReceiveMessage\<close>, and, when they are called, the
  results of \<^verbatim>\<open>Decode\<close> (\<open>Inr None\<close> is a \<^verbatim>\<open>nil\<close> message) and of \<^verbatim>\<open>RefreshType\<close>.
\<close>

record 'c event =
  now :: time
  status_err :: "error option"
  now_after_report :: time
  received :: "error + BackendMessage"
  decoded :: "error + 'c Message option"
  refreshed :: "error option"

text \<open>What the loop does that is visible outside, in order.\<close>

datatype 'c action =
    SendStandbyStatusUpdate lsn
  | ReceiveMessage
  | Decode "byte list"
  | RefreshType
  | Forward "'c Change"

text \<open>
  How one pass ends: the loop goes on, it sends a change on the channel and
  goes on, the function returns (\<open>None\<close> is \<^verbatim>\<open>nil\<close>), or the goroutine panics
  (\<^verbatim>\<open>msg.Data[0]\<close> on empty data).
\<close>

datatype ('s, 'c) flow =
    Continue 's
  | Emit "'c Change" 's
  | Return "error option" 's
  | Panic 's

definition prepend :: "'a list \<Rightarrow> 'a list \<times> 'b \<Rightarrow> 'a list \<times> 'b" where
  "prepend cs r = (cs @ fst r, snd r)"

definition reportInterval :: int where
  "reportInterval = time_Second * 5"

subsection \<open>\<^verbatim>\<open>fetching\<close> of \<^verbatim>\<open>part_000\<close>\<close>

text \<open>The struct and the local \<^verbatim>\<open>nextReportTime\<close>.\<close>

record fetch0 =
  source :: PGXSource0
  nextReportTime0 :: time

text \<open>The status report at the head of the loop body.\<close>

definition report0 :: "'c event \<Rightarrow> fetch0 \<Rightarrow> 'c action list \<times> (fetch0, 'c) flow" where
  "report0 ev s =
    (if time_After (now ev) (nextReportTime0 s) then
       (case status_err ev of
          Some e \<Rightarrow> ([SendStandbyStatusUpdate (committedLSN (source s))], Return (Some e) s)
        | None \<Rightarrow>
           (let s1 = s\<lparr>nextReportTime0 := time_Add (now_after_report ev) reportInterval\<rparr>
            in if stopped (source s1) = 1
               then ([SendStandbyStatusUpdate (committedLSN (source s))], Return None s1)
               else ([SendStandbyStatusUpdate (committedLSN (source s))], Continue s1)))
     else ([], Continue s))"

text \<open>The change built from a decoded message of a WAL record.\<close>

definition emit0 :: "XLogData \<Rightarrow> 'c Message \<Rightarrow> fetch0 \<Rightarrow> 'c Change" where
  "emit0 xld m s =
    \<lparr>Checkpoint = \<lparr>LSN = WALStart xld + of_nat (length (WALData xld)),
                    Time = commitTime (source s)\<rparr>,
     Message = Some m\<rparr>"

definition wal0 ::
  "'c deps \<Rightarrow> 'c event \<Rightarrow> XLogData \<Rightarrow> fetch0 \<Rightarrow> 'c action list \<times> (fetch0, 'c) flow" where
  "wal0 d ev xld s =
    (case decoded ev of
       Inl e \<Rightarrow> ([Decode (WALData xld)], Return (Some e) s)
     | Inr None \<Rightarrow> ([Decode (WALData xld)], Continue s)
     | Inr (Some m) \<Rightarrow>
        (case m of
           Message_Begin ct \<Rightarrow>
             (let s1 = s\<lparr>source := (source s)\<lparr>commitTime := PGTime2Time ct\<rparr>\<rparr>
              in ([Decode (WALData xld)], Emit (emit0 xld m s1) s1))
         | Message_Change c \<Rightarrow>
             (if Ignore d c then ([Decode (WALData xld)], Continue s)
              else if IsDDL d c then
                (case refreshed ev of
                   Some e \<Rightarrow> ([Decode (WALData xld), RefreshType], Return (Some e) s)
                 | None \<Rightarrow> ([Decode (WALData xld), RefreshType], Emit (emit0 xld m s) s))
              else ([Decode (WALData xld)], Emit (emit0 xld m s) s))
         | Message_Commit \<Rightarrow> ([Decode (WALData xld)], Emit (emit0 xld m s) s)))"

definition dispatch0 ::
  "'c deps \<Rightarrow> 'c event \<Rightarrow> BackendMessage \<Rightarrow> fetch0 \<Rightarrow> 'c action list \<times> (fetch0, 'c) flow" where
  "dispatch0 d ev msg s =
    (case msg of
       CopyData data \<Rightarrow>
        (case data of
           [] \<Rightarrow> ([], Panic s)
         | b # rest \<Rightarrow>
            (if b = PrimaryKeepaliveMessageByteID then
               (case ParsePrimaryKeepaliveMessage d rest of
                  Inl e \<Rightarrow> ([], Return (Some e) s)
                | Inr pkm \<Rightarrow>
                   (if ReplyRequested pkm then ([], Continue (s\<lparr>nextReportTime0 := zero_time\<rparr>))
                    else ([], Continue s)))
             else if b = XLogDataByteID then
               (case ParseXLogData d rest of
                  Inl e \<Rightarrow> ([], Return (Some e) s)
                | Inr xld \<Rightarrow> wal0 d ev xld s)
             else ([], Continue s)))
     | OtherMessage \<Rightarrow> ([], Return (Some (errors_New ''unexpected message'')) s))"

definition receive0 ::
  "'c deps \<Rightarrow> 'c event \<Rightarrow> fetch0 \<Rightarrow> 'c action list \<times> (fetch0, 'c) flow" where
  "receive0 d ev s =
    (case received ev of
       Inl e \<Rightarrow> (if Timeout e then ([ReceiveMessage], Continue s)
                 else ([ReceiveMessage], Return (Some e) s))
     | Inr msg \<Rightarrow> prepend [ReceiveMessage] (dispatch0 d ev msg s))"

text \<open>One pass through the body of the \<^verbatim>\<open>for\<close> loop.\<close>

definition fetching0_iter ::
  "'c deps \<Rightarrow> 'c event \<Rightarrow> fetch0 \<Rightarrow> 'c action list \<times> (fetch0, 'c) flow" where
  "fetching0_iter d ev s =
    (case report0 ev s of
       (cs, Continue s1) \<Rightarrow> prepend cs (receive0 d ev s1)
     | (cs, r) \<Rightarrow> (cs, r))"

text \<open>
  The loop over the answers of the world, one per pass. It has no exit of its
  own: when the answers run out it is still running (\<open>Continue\<close>). A change sent
  on the channel is the action \<open>Forward\<close>.
\<close>

fun fetching0_loop ::
  "'c deps \<Rightarrow> 'c event list \<Rightarrow> fetch0 \<Rightarrow> 'c action list \<times> (fetch0, 'c) flow" where
  "fetching0_loop d [] s = ([], Continue s)"
| "fetching0_loop d (ev # evs) s =
    (case fetching0_iter d ev s of
       (cs, Continue s1) \<Rightarrow> prepend cs (fetching0_loop d evs s1)
     | (cs, Emit c s1) \<Rightarrow> prepend (cs @ [Forward c]) (fetching0_loop d evs s1)
     | (cs, r) \<Rightarrow> (cs, r))"

text \<open>\<^verbatim>\<open>fetching\<close>: the first deadline is taken from the clock (\<open>t0\<close>), then the loop.\<close>

definition fetching0 ::
  "'c deps \<Rightarrow> time \<Rightarrow> 'c event list \<Rightarrow> PGXSource0 \<Rightarrow> 'c action list \<times> (fetch0, 'c) flow" where
  "fetching0 d t0 evs p =
    fetching0_loop d evs \<lparr>source = p, nextReportTime0 = time_Add t0 reportInterval\<rparr>"

subsection \<open>\<^verbatim>\<open>fetching\<close> of \<^verbatim>\<open>postgres.go\<close>\<close>

text \<open>
  One read step, called again and again by \<^verbatim>\<open>BaseSource.capture\<close>. It returns the
  change (the zero value when there is none) and the named result \<^verbatim>\<open>err\<close>.
  In the WAL-data case \<^verbatim>\<open>err\<close> is declared anew, so after the \<^verbatim>\<open>switch\<close> the outer
  \<^verbatim>\<open>err\<close> is still the \<^verbatim>\<open>nil\<close> of \<^verbatim>\<open>ReceiveMessage\<close>; in the keepalive case the
  parse error is assigned to the outer \<^verbatim>\<open>err\<close> and returned at the end.
\<close>

definition emit1 :: "XLogData \<Rightarrow> 'c Message \<Rightarrow> 'c Change" where
  "emit1 xld m =
    \<lparr>Checkpoint = \<lparr>LSN = WALStart xld + of_nat (length (WALData xld)), Time = zero_time\<rparr>,
     Message = Some m\<rparr>"

definition wal1 ::
  "'c deps \<Rightarrow> 'c event \<Rightarrow> XLogData \<Rightarrow> PGXSource1
    \<Rightarrow> 'c action list \<times> PGXSource1 \<times> 'c Change \<times> error option" where
  "wal1 d ev xld p =
    (case decoded ev of
       Inl e \<Rightarrow> ([Decode (WALData xld)], p, zero_Change, Some e)
     | Inr None \<Rightarrow> ([Decode (WALData xld)], p, zero_Change, None)
     | Inr (Some m) \<Rightarrow>
        (case GetChange m of
           Some c \<Rightarrow>
             (if Ignore d c then ([Decode (WALData xld)], p, zero_Change, None)
              else if IsDDL d c then
                (case refreshed ev of
                   Some e \<Rightarrow> ([Decode (WALData xld), RefreshType], p, zero_Change, Some e)
                 | None \<Rightarrow> ([Decode (WALData xld), RefreshType], p, emit1 xld m, None))
              else ([Decode (WALData xld)], p, emit1 xld m, None))
         | None \<Rightarrow> ([Decode (WALData xld)], p, emit1 xld m, None)))"

text \<open>The dispatch on the message; \<open>None\<close> is the panic of \<^verbatim>\<open>msg.Data[0]\<close>.\<close>

definition dispatch1 ::
  "'c deps \<Rightarrow> 'c event \<Rightarrow> BackendMessage \<Rightarrow> PGXSource1
    \<Rightarrow> ('c action list \<times> PGXSource1 \<times> 'c Change \<times> error option) option" where
  "dispatch1 d ev msg p =
    (case msg of
       CopyData data \<Rightarrow>
        (case data of
           [] \<Rightarrow> None
         | b # rest \<Rightarrow>
            (if b = PrimaryKeepaliveMessageByteID then
               (case ParsePrimaryKeepaliveMessage d rest of
                  Inl e \<Rightarrow> Some ([], p, zero_Change, Some e)
                | Inr pkm \<Rightarrow>
                   (if ReplyRequested pkm
                    then Some ([], p\<lparr>nextReportTime := zero_time\<rparr>, zero_Change, None)
                    else Some ([], p, zero_Change, None)))
             else if b = XLogDataByteID then
               (case ParseXLogData d rest of
                  Inl e \<Rightarrow> Some ([], p, zero_Change, Some e)
                | Inr xld \<Rightarrow> Some (wal1 d ev xld p))
             else Some ([], p, zero_Change, None)))
     | OtherMessage \<Rightarrow> Some ([], p, zero_Change, Some (errors_New ''unexpected message'')))"

definition report1 ::
  "'c event \<Rightarrow> PGXSource1 \<Rightarrow> 'c action list \<times> PGXSource1 \<times> error option" where
  "report1 ev p =
    (if time_After (now ev) (nextReportTime p) then
       (case status_err ev of
          Some e \<Rightarrow> ([SendStandbyStatusUpdate (committedLSN p)], p, Some e)
        | None \<Rightarrow>
           ([SendStandbyStatusUpdate (committedLSN p)],
            p\<lparr>nextReportTime := time_Add (now_after_report ev) (5 * time_Second)\<rparr>, None))
     else ([], p, None))"

definition fetching1 ::
  "'c deps \<Rightarrow> 'c event \<Rightarrow> PGXSource1
    \<Rightarrow> ('c action list \<times> PGXSource1 \<times> 'c Change \<times> error option) option" where
  "fetching1 d ev p =
    (case report1 ev p of
       (cs, p1, Some e) \<Rightarrow> Some (cs, p1, zero_Change, Some e)
     | (cs, p1, None) \<Rightarrow>
        (case received ev of
           Inl e \<Rightarrow> Some (cs @ [ReceiveMessage], p1, zero_Change, Some e)
         | Inr msg \<Rightarrow>
            (case dispatch1 d ev msg p1 of
               None \<Rightarrow> None
             | Some r \<Rightarrow> Some (prepend (cs @ [ReceiveMessage]) r))))"

section \<open>The goroutine of \<^verbatim>\<open>Capture\<close>, \<^verbatim>\<open>Stop\<close> and the consumer (\<^verbatim>\<open>part_000\<close>)\<close>

text \<open>
  \<^verbatim>\<open>Capture\<close> starts a goroutine that registers three deferred calls and runs
  \<^verbatim>\<open>fetching\<close>:
  \<^verbatim>\<open>
    defer p.cleanup()
    defer close(p.stop)
    defer close(changes)
    if err = p.fetching(changes); err != nil { log.Fatalf(...) }
  \<close>
  Deferred calls run last-registered first: \<^verbatim>\<open>close(changes)\<close>, then
  \<^verbatim>\<open>close(p.stop)\<close>, then \<^verbatim>\<open>p.cleanup()\<close>. \<^verbatim>\<open>log.Fatalf\<close> writes the message and
  exits the process at once, running no deferred call. A panic runs the deferred
  calls and then ends the process.

  Where the goroutine stands:
\<close>

datatype 'c goroutine =
    In_fetching
  | In_send "'c Change"
  | At_close_changes bool
  | At_close_stop bool
  | At_cleanup bool
  | Finished
  | Fatal error
  | Crashed

text \<open>
  \<open>In_fetching\<close>: inside \<^verbatim>\<open>fetching\<close>, at the head of the loop body;
  \<open>In_send c\<close>: at \<^verbatim>\<open>changes <- c\<close>, which waits while the buffer is full (only this
  goroutine closes the channel, and only after the loop, so the send never meets
  a closed channel);
  \<open>At_close_changes\<close>, \<open>At_close_stop\<close>, \<open>At_cleanup\<close>: before that deferred call
  (the flag says that a panic is unwinding); \<open>Finished\<close>: the goroutine has
  returned; \<open>Fatal e\<close>: \<^verbatim>\<open>log.Fatalf\<close> has ended the process; \<open>Crashed\<close>: the panic has.

  Where the caller of \<^verbatim>\<open>Stop\<close> stands: \<^verbatim>\<open>Stop\<close> stores 1 in \<^verbatim>\<open>p.stopped\<close>, then, if
  \<^verbatim>\<open>p.stop\<close> is not \<^verbatim>\<open>nil\<close>, receives from it, which waits until it is closed.
\<close>

datatype stop_call = Stop_not_called | Stop_waiting | Stop_returned

record 'c system =
  fetch :: fetch0
  changes :: "'c Change chan"
  goroutine :: "'c goroutine"
  stopping :: stop_call
  sent :: "'c Change list"
  consumed :: "'c Change list"

text \<open>\<open>sent\<close> and \<open>consumed\<close> record every change put on the channel and every change
  the consumer took from it.\<close>

definition process_alive :: "'c system \<Rightarrow> bool" where
  "process_alive s = (case goroutine s of Fatal e \<Rightarrow> False | Crashed \<Rightarrow> False | _ \<Rightarrow> True)"

definition set_source :: "(PGXSource0 \<Rightarrow> PGXSource0) \<Rightarrow> 'c system \<Rightarrow> 'c system" where
  "set_source f s = s\<lparr>fetch := (fetch s)\<lparr>source := f (source (fetch s))\<rparr>\<rparr>"

text \<open>One step of the goroutine; \<open>ev\<close> is what the world answers if the step is a
  pass through the loop body.\<close>

definition go_step :: "'c deps \<Rightarrow> 'c event \<Rightarrow> 'c system \<Rightarrow> 'c system" where
  "go_step d ev s =
    (case goroutine s of
       In_fetching \<Rightarrow>
        (case snd (fetching0_iter d ev (fetch s)) of
           Continue f \<Rightarrow> s\<lparr>fetch := f\<rparr>
         | Emit c f \<Rightarrow> s\<lparr>fetch := f, goroutine := In_send c\<rparr>
         | Return None f \<Rightarrow> s\<lparr>fetch := f, goroutine := At_close_changes False\<rparr>
         | Return (Some e) f \<Rightarrow> s\<lparr>fetch := f, goroutine := Fatal e\<rparr>
         | Panic f \<Rightarrow> s\<lparr>fetch := f, goroutine := At_close_changes True\<rparr>)
     | In_send c \<Rightarrow>
        (if length (buf (changes s)) < chan_capacity
         then s\<lparr>changes := (changes s)\<lparr>buf := buf (changes s) @ [c]\<rparr>,
                sent := sent s @ [c], goroutine := In_fetching\<rparr>
         else s)
     | At_close_changes pn \<Rightarrow>
        s\<lparr>changes := (changes s)\<lparr>closed := True\<rparr>, goroutine := At_close_stop pn\<rparr>
     | At_close_stop pn \<Rightarrow>
        (case stop (source (fetch s)) of
           None \<Rightarrow> s\<lparr>goroutine := At_cleanup True\<rparr>
         | Some c \<Rightarrow> (set_source (\<lambda>p. p\<lparr>stop := Some True\<rparr>) s)\<lparr>goroutine := At_cleanup pn\<rparr>)
     | At_cleanup pn \<Rightarrow>
        (set_source (\<lambda>p. snd (cleanup0 p)) s)\<lparr>goroutine := (if pn then Crashed else Finished)\<rparr>
     | Finished \<Rightarrow> s
     | Fatal e \<Rightarrow> s
     | Crashed \<Rightarrow> s)"

text \<open>\<^verbatim>\<open>Stop\<close>, one step at a time: the store, then the receive from \<^verbatim>\<open>p.stop\<close>.\<close>

definition Stop_step :: "'c system \<Rightarrow> 'c system" where
  "Stop_step s =
    (case stopping s of
       Stop_not_called \<Rightarrow> (set_source (\<lambda>p. p\<lparr>stopped := 1\<rparr>) s)\<lparr>stopping := Stop_waiting\<rparr>
     | Stop_waiting \<Rightarrow>
        (case stop (source (fetch s)) of
           None \<Rightarrow> s\<lparr>stopping := Stop_returned\<rparr>
         | Some c \<Rightarrow> (if c then s\<lparr>stopping := Stop_returned\<rparr> else s))
     | Stop_returned \<Rightarrow> s)"

text \<open>The consumer takes the next change from the channel, if there is one.\<close>

definition consume_step :: "'c system \<Rightarrow> 'c system" where
  "consume_step s =
    (case buf (changes s) of
       [] \<Rightarrow> s
     | c # cs \<Rightarrow> s\<lparr>changes := (changes s)\<lparr>buf := cs\<rparr>, consumed := consumed s @ [c]\<rparr>)"

text \<open>A schedule says who moves next. Nothing moves once the process has ended.\<close>

datatype 'c move = Go "'c event" | Call_Stop | Call_Commit Checkpoint | Consume

definition step :: "'c deps \<Rightarrow> 'c move \<Rightarrow> 'c system \<Rightarrow> 'c system" where
  "step d m s =
    (if process_alive s then
       (case m of
          Go ev \<Rightarrow> go_step d ev s
        | Call_Stop \<Rightarrow> Stop_step s
        | Call_Commit cp \<Rightarrow> set_source (Commit cp) s
        | Consume \<Rightarrow> consume_step s)
     else s)"

fun run :: "'c deps \<Rightarrow> 'c move list \<Rightarrow> 'c system \<Rightarrow> 'c system" where
  "run d [] s = s"
| "run d (m # ms) s = run d ms (step d m s)"

text \<open>The system right after a \<^verbatim>\<open>Capture\<close> that returned the channel \<open>ch\<close>: the
  goroutine enters \<^verbatim>\<open>fetching\<close>, which takes the first deadline from the clock.\<close>

definition spawn :: "PGXSource0 \<Rightarrow> 'c Change chan \<Rightarrow> time \<Rightarrow> 'c system" where
  "spawn p ch t0 =
    \<lparr>fetch = \<lparr>source = p, nextReportTime0 = time_Add t0 reportInterval\<rparr>,
     changes = ch, goroutine = In_fetching, stopping = Stop_not_called,
     sent = [], consumed = []\<rparr>"

text \<open>The state a pass ends in, however it ends.\<close>

fun flow_state :: "('s, 'c) flow \<Rightarrow> 's" where
  "flow_state (Continue s) = s"
| "flow_state (Emit c s) = s"
| "flow_state (Return e s) = s"
| "flow_state (Panic s) = s"

text \<open>
  What holds of the channels at each point of the goroutine, for a system started
  by a successful \<^verbatim>\<open>Capture\<close>: nothing put on the output channel is lost, the
  output channel is closed before the stop channel, and \<^verbatim>\<open>Stop\<close> has returned
  only if the stop channel is closed.
\<close>

definition channels_at :: "'c goroutine \<Rightarrow> bool \<times> bool option" where
  "channels_at g =
    (case g of
       In_fetching \<Rightarrow> (False, Some False)
     | In_send c \<Rightarrow> (False, Some False)
     | At_close_changes pn \<Rightarrow> (False, Some False)
     | At_close_stop pn \<Rightarrow> (True, Some False)
     | At_cleanup pn \<Rightarrow> (True, Some True)
     | Finished \<Rightarrow> (True, Some True)
     | Fatal e \<Rightarrow> (False, Some False)
     | Crashed \<Rightarrow> (True, Some True))"

definition stop_inv :: "'c system \<Rightarrow> bool" where
  "stop_inv s =
    (sent s = consumed s @ buf (changes s)
     \<and> (closed (changes s), stop (source (fetch s))) = channels_at (goroutine s)
     \<and> (if stopping s = Stop_returned then stop (source (fetch s)) = Some True else True))"

section \<open>Concrete collaborators for examples\<close>

text \<open>
  The parsers as \<^verbatim>\<open>github.com/jackc/pglogrepl\<close> defines them: a keepalive is 17
  bytes, the last of which is the reply flag; WAL data has a header of 24 bytes
  that starts with the big-endian WAL start, and the payload after it. Changes
  are \<open>(schema, table)\<close> pairs; the two classifiers are examples.
\<close>

definition be_uint64 :: "byte list \<Rightarrow> 64 word" where
  "be_uint64 bs = foldl (\<lambda>acc b. acc * 256 + ucast b) 0 (take 8 bs)"

definition pglogrepl_ParsePrimaryKeepaliveMessage ::
  "byte list \<Rightarrow> error + PrimaryKeepaliveMessage" where
  "pglogrepl_ParsePrimaryKeepaliveMessage bs =
    (if length bs \<noteq> 17 then Inl (errors_New ''PrimaryKeepaliveMessage must be 17 bytes'')
     else Inr \<lparr>ReplyRequested = (bs ! 16 \<noteq> 0)\<rparr>)"

definition pglogrepl_ParseXLogData :: "byte list \<Rightarrow> error + XLogData" where
  "pglogrepl_ParseXLogData bs =
    (if length bs < 24 then Inl (errors_New ''XLogData must be at least 24 bytes'')
     else Inr \<lparr>WALStart = be_uint64 bs, WALData = drop 24 bs\<rparr>)"

definition example_deps :: "(string \<times> string) deps" where
  "example_deps =
    \<lparr>ParsePrimaryKeepaliveMessage = pglogrepl_ParsePrimaryKeepaliveMessage,
     ParseXLogData = pglogrepl_ParseXLogData,
     Ignore = (\<lambda>c. c = (''pgcapture'', ''sources'')),
     IsDDL = (\<lambda>c. c = (''pgcapture'', ''ddl_logs''))\<rparr>"

definition example_source :: PGXSource where
  "example_source =
    \<lparr>SetupConnStr = ''setup'', ReplConnStr = ''repl'', ReplSlot = ''slot'', CreateSlot = True,
     setupConn = Some Open, replConn = None, ackLsn = 0\<rparr>"

definition example_source0 :: PGXSource0 where
  "example_source0 =
    \<lparr>SetupConnStr = ''setup'', ReplConnStr = ''repl'', ReplSlot = ''slot'', CreateSlot = True,
     setupConn = Some Open, replConn = None, ackLsn = 0,
     commitTime = zero_time, stopped = 0, stop = None\<rparr>"

definition example_source1 :: PGXSource1 where
  "example_source1 =
    \<lparr>SetupConnStr = ''setup'', ReplConnStr = ''repl'', ReplSlot = ''slot'', CreateSlot = True,
     setupConn = Some Open, replConn = Some Open, ackLsn = 0,
     nextReportTime = time_Unix 1000 0\<rparr>"

definition example_ident :: IdentifySystemResult where
  "example_ident =
    \<lparr>SystemID = ''6882676644214336708'', Timeline = 1, XLogPos = 500, DBName = ''postgres''\<rparr>"

definition example_capture_env :: capture_env where
  "example_capture_env =
    \<lparr>repl_connect_err = None, identify = Inr example_ident, start_err = None\<rparr>"

text \<open>A \<^verbatim>\<open>Capture\<close> in which the connection is made and the identify step fails.\<close>

definition identify_fails :: capture_env where
  "identify_fails = example_capture_env\<lparr>identify := Inl (errors_New ''identify failed'')\<rparr>"

text \<open>A quiet pass: the deadline has not passed and the receive times out.\<close>

definition quiet :: "time \<Rightarrow> (string \<times> string) event" where
  "quiet t =
    \<lparr>now = t, status_err = None, now_after_report = t, received = Inl deadline_exceeded,
     decoded = Inr None, refreshed = None\<rparr>"

text \<open>A pass in which the deadline has not passed and a message arrives.\<close>

definition got :: "BackendMessage \<Rightarrow> (string \<times> string) event" where
  "got msg = (quiet (time_Unix 1001 0))\<lparr>received := Inr msg\<rparr>"

definition example_fetch0 :: fetch0 where
  "example_fetch0 = \<lparr>source = example_source0, nextReportTime0 = time_Unix 1005 0\<rparr>"

text \<open>A WAL-data message with the given start, one payload byte, and a header of
  zeros otherwise.\<close>

definition wal_message :: "byte \<Rightarrow> BackendMessage" where
  "wal_message start =
    CopyData (XLogDataByteID # [0, 0, 0, 0, 0, 0, 0, start]
                @ [0, 0, 0, 0, 0, 0, 0, 0] @ [0, 0, 0, 0, 0, 0, 0, 0] @ [1])"

definition keepalive_message :: "bool \<Rightarrow> BackendMessage" where
  "keepalive_message reply =
    CopyData (PrimaryKeepaliveMessageByteID # [0, 0, 0, 0, 0, 0, 0, 0]
                @ [0, 0, 0, 0, 0, 0, 0, 0] @ [if reply then 1 else 0])"

text \<open>A pass in which a WAL record with the given start arrives and the decoder
  returns the given message.\<close>

definition got_wal :: "byte \<Rightarrow> (string \<times> string) Message \<Rightarrow> (string \<times> string) event" where
  "got_wal start m = (got (wal_message start))\<lparr>decoded := Inr (Some m)\<rparr>"

text \<open>The system right after a successful \<^verbatim>\<open>Capture\<close> on the example source, the
  first deadline taken at second 1000.\<close>

definition example_captured :: PGXSource0 where
  "example_captured = fst (snd (Capture0 example_capture_env \<lparr>LSN = 0, Time = zero_time\<rparr> example_source0))"

definition example_system :: "(string \<times> string) system" where
  "example_system = spawn example_captured make_chan (time_Unix 1000 0)"

text \<open>A pass at which the deadline has passed and the status update succeeds, with
  a receive that then times out.\<close>

definition report_due :: "(string \<times> string) event" where
  "report_due = quiet (time_Unix 1006 0)"

text \<open>\<^verbatim>\<open>Stop\<close> is called; the next pass finds the deadline passed, reports and
  sees the flag; the goroutine runs its first two deferred calls; the receive
  in \<^verbatim>\<open>Stop\<close> ends.\<close>

definition stop_schedule :: "(string \<times> string) move list" where
  "stop_schedule = [Call_Stop, Go report_due, Go report_due, Go report_due, Call_Stop]"

text \<open>A pass in which a WAL record arrives and the decoder fails.\<close>

definition decode_fails :: "(string \<times> string) event" where
  "decode_fails = (got (wal_message 100))\<lparr>decoded := Inl (errors_New ''decode failed'')\<rparr>"


section \<open>Reading traces\<close>

text \<open>The start positions asked of the server, in the order of the
  \<^verbatim>\<open>StartReplication\<close> calls.\<close>

fun start_positions :: "call list \<Rightarrow> lsn list" where
  "start_positions [] = []"
| "start_positions (StartReplication slot pos args # cs) = pos # start_positions cs"
| "start_positions (c # cs) = start_positions cs"

text \<open>The statements executed on the setup connection.\<close>

fun executed :: "call list \<Rightarrow> statement list" where
  "executed [] = []"
| "executed (setupConn_Exec st args # cs) = st # executed cs"
| "executed (c # cs) = executed cs"

text \<open>The changes sent on the channel, in order, and their positions.\<close>

fun forwards :: "'c action list \<Rightarrow> 'c Change list" where
  "forwards [] = []"
| "forwards (Forward c # as) = c # forwards as"
| "forwards (a # as) = forwards as"

definition emitted_LSNs :: "'c action list \<Rightarrow> lsn list" where
  "emitted_LSNs as = map (\<lambda>c. LSN (Checkpoint c)) (forwards as)"

text \<open>The end offset of the WAL record an answer carries, if its message is WAL
  data that parses: the start offset plus the length of the payload.\<close>

definition wal_end :: "'c deps \<Rightarrow> 'c event \<Rightarrow> lsn option" where
  "wal_end d ev =
    (case received ev of
       Inl e \<Rightarrow> None
     | Inr OtherMessage \<Rightarrow> None
     | Inr (CopyData []) \<Rightarrow> None
     | Inr (CopyData (b # rest)) \<Rightarrow>
        (if b = XLogDataByteID then
           (case ParseXLogData d rest of
              Inl e \<Rightarrow> None
            | Inr xld \<Rightarrow> Some (WALStart xld + of_nat (length (WALData xld))))
         else None))"

definition wal_ends :: "'c deps \<Rightarrow> 'c event list \<Rightarrow> lsn list" where
  "wal_ends d evs = List.map_filter (wal_end d) evs"

section \<open>Time conversion: properties\<close>

lemma PGTime2Time_instant:
  "PGTime2Time ts = sint (microsecFromUnixEpochToY2K + ts) * 1000"
proof -
  define m where "m = sint (microsecFromUnixEpochToY2K + ts)"
  define q r where "q = m sdiv 1000000" and "r = m smod 1000000"
  have "q * 1000000 + r = m"
    unfolding q_def r_def by (rule sdiv_mult_smod_eq)
  then have "q * 1000000000 + r * 1000 = m * 1000"
    by linarith
  then have "(m sdiv 1000000) * 1000000000 + (m smod 1000000) * 1000 = m * 1000"
    by (simp add: q_def r_def)
  then show ?thesis
    by (simp add: PGTime2Time_def Let_def time_Unix_def microInSecond_def nsInSecond_def m_def)
qed


lemma sint_Y2K_plus:
  assumes "uint ts < 2 ^ 63 - 946684800000000"
  shows "sint (microsecFromUnixEpochToY2K + ts) = 946684800000000 + uint (ts :: 64 word)"
proof -
  have u: "uint (microsecFromUnixEpochToY2K :: 64 word) = 946684800000000"
    by (simp add: microsecFromUnixEpochToY2K_def)
  have "uint (microsecFromUnixEpochToY2K + ts) = (946684800000000 + uint ts) mod 2 ^ 64"
    by (simp add: uint_word_ariths u)
  also have "\<dots> = 946684800000000 + uint ts"
    using assms by simp
  finally have v: "uint (microsecFromUnixEpochToY2K + ts) = 946684800000000 + uint ts" .
  have "sint (microsecFromUnixEpochToY2K + ts)
      = signed_take_bit 63 (uint (microsecFromUnixEpochToY2K + ts))"
    by (simp add: sint_uint)
  also have "\<dots> = 946684800000000 + uint ts"
    unfolding v using assms by (intro signed_take_bit_int_eq_self) simp_all
  finally show ?thesis .
qed

lemma nanosecond_scaled:
  "nanosecond (946684800000000000 + x * 1000) = (x mod 1000000) * 1000"
proof -
  have a: "(946684800 * 1000000000 + x * 1000) mod 1000000000 = (x * 1000) mod 1000000000"
    by (rule mod_mult_self3)
  have b: "(x * 1000) mod (1000000 * 1000) = (x mod 1000000) * 1000"
    by (rule mod_mult_mult2)
  from a b show ?thesis by (simp add: nanosecond_def)
qed

lemma unix_seconds_scaled:
  "unix_seconds (946684800000000000 + x * 1000) = 946684800 + x div 1000000"
  by (simp add: unix_seconds_def)

lemma PGTime2Time_in_range:
  assumes "uint ts < 2 ^ 63 - 946684800000000"
  shows "PGTime2Time ts = 946684800000000000 + uint ts * 1000"
  by (simp add: PGTime2Time_instant sint_Y2K_plus [OF assms])

text \<open>
  C8. \<^verbatim>\<open>PGTime2Time 0\<close> is the instant 2000-01-01T00:00:00Z: Unix second 946684800,
  nanosecond 0. \<^verbatim>\<open>PGTime2Time 1000000\<close> is one second later. For every timestamp
  the result is the \<^verbatim>\<open>int64\<close> sum of the epoch offset and the timestamp, in whole
  microseconds; while that sum is within \<^verbatim>\<open>int64\<close> (timestamps below
  \<open>2^63 - 946684800000000\<close>) the result is 946684800 seconds plus the
  timestamp's whole seconds, with its microseconds as nanoseconds.
\<close>

theorem PGTime2Time_epoch_offset:
  "PGTime2Time 0 = time_Unix 946684800 0
   \<and> unix_seconds (PGTime2Time 0) = 946684800 \<and> nanosecond (PGTime2Time 0) = 0
   \<and> PGTime2Time 1000000 = time_Add (PGTime2Time 0) time_Second
   \<and> (\<forall>ts. PGTime2Time ts = sint (microsecFromUnixEpochToY2K + ts) * 1000)
   \<and> (\<forall>ts. uint ts < 2 ^ 63 - 946684800000000 \<longrightarrow>
         unix_seconds (PGTime2Time ts) = 946684800 + uint ts div 1000000
         \<and> nanosecond (PGTime2Time ts) = (uint ts mod 1000000) * 1000)"
proof -
  have z: "PGTime2Time 0 = 946684800000000000"
    using PGTime2Time_in_range [of 0] by simp
  have m: "PGTime2Time 1000000 = 946684801000000000"
    using PGTime2Time_in_range [of 1000000] by simp
  have g: "unix_seconds (PGTime2Time ts) = 946684800 + uint ts div 1000000
         \<and> nanosecond (PGTime2Time ts) = (uint ts mod 1000000) * 1000"
    if "uint ts < 2 ^ 63 - 946684800000000" for ts :: "64 word"
    by (simp only: PGTime2Time_in_range [OF that] unix_seconds_scaled nanosecond_scaled)
  have "PGTime2Time 0 = time_Unix 946684800 0"
    by (simp add: z time_Unix_def)
  moreover have "unix_seconds (PGTime2Time 0) = 946684800"
    by (simp add: z unix_seconds_def)
  moreover have "nanosecond (PGTime2Time 0) = 0"
    by (simp add: z nanosecond_def)
  moreover have "PGTime2Time 1000000 = time_Add (PGTime2Time 0) time_Second"
    by (simp add: z m time_Add_def time_Second_def)
  ultimately show ?thesis
    using g PGTime2Time_instant by blast
qed

theorem PGTime2Time_epoch_offset_witness:
  "uint (1500000 :: 64 word) < 2 ^ 63 - 946684800000000
   \<and> unix_seconds (PGTime2Time 1500000) = 946684801
   \<and> nanosecond (PGTime2Time 1500000) = 500000000"
proof -
  have "\<forall>ts. uint ts < 2 ^ 63 - 946684800000000 \<longrightarrow>
         unix_seconds (PGTime2Time ts) = 946684800 + uint ts div 1000000
         \<and> nanosecond (PGTime2Time ts) = (uint ts mod 1000000) * 1000"
    using PGTime2Time_epoch_offset by blast
  from this [rule_format, of 1500000] show ?thesis by simp
qed

section \<open>Setup: properties\<close>

text \<open>
  C10. If the install-extension statement fails during \<^verbatim>\<open>Setup\<close> (after the
  connection and the type refresh succeeded), \<^verbatim>\<open>Setup\<close> drops that error and
  returns \<^verbatim>\<open>nil\<close>, and the create-slot statement is not executed, whatever
  \<^verbatim>\<open>CreateSlot\<close> is.
\<close>

theorem Setup_install_error_discarded:
  assumes "connect_err env = None" and "refresh_err env = None" and "install_err env = Some e"
  shows "snd (snd (Setup env p)) = None
       \<and> executed (fst (Setup env p)) = [InstallExtension]
       \<and> fst (Setup env p) =
           [pgx_Connect (SetupConnStr p), schema_RefreshType, setupConn_Exec InstallExtension []]"
  using assms by (simp add: Setup_def)

theorem Setup_install_error_discarded_witness:
  "CreateSlot example_source
   \<and> snd (snd (Setup \<lparr>connect_err = None, refresh_err = None,
                       install_err = Some (errors_New ''permission denied''),
                       create_slot_err = None\<rparr> example_source)) = None
   \<and> executed (fst (Setup \<lparr>connect_err = None, refresh_err = None,
                       install_err = Some (errors_New ''permission denied''),
                       create_slot_err = None\<rparr> example_source)) = [InstallExtension]"
  using Setup_install_error_discarded
    [of "\<lparr>connect_err = None, refresh_err = None,
          install_err = Some (errors_New ''permission denied''),
          create_slot_err = None\<rparr>" "errors_New ''permission denied''" example_source]
  by (simp add: example_source_def)

section \<open>Capture: properties\<close>

text \<open>
  C1. When \<^verbatim>\<open>Capture\<close> gets as far as starting replication (the connection and
  the identify step succeeded), it asks the server for exactly one start
  position: the checkpoint's LSN if that is not zero, and otherwise the current
  WAL position that the identify step reported. Both revisions do so.
\<close>

theorem Capture_start_position:
  assumes "repl_connect_err env = None" and "identify env = Inr ident"
  shows "start_positions (fst (Capture0 env cp p0))
           = [if LSN cp \<noteq> 0 then LSN cp else XLogPos ident]
       \<and> start_positions (fst (Capture1 env base_err cp p1))
           = [if LSN cp \<noteq> 0 then LSN cp else XLogPos ident]"
  using assms
  by (auto simp add: Capture0_def Capture1_def Capture1_body_def requestLSN_def Let_def
      cleanup1_def split: option.splits prod.splits)

theorem Capture_start_position_witness:
  "start_positions (fst (Capture0 example_capture_env \<lparr>LSN = 0, Time = 0\<rparr> example_source0)) = [500]
   \<and> start_positions (fst (Capture1 example_capture_env None \<lparr>LSN = 0, Time = 0\<rparr> example_source1)) = [500]
   \<and> start_positions (fst (Capture0 example_capture_env \<lparr>LSN = 42, Time = 0\<rparr> example_source0)) = [42]
   \<and> start_positions (fst (Capture1 example_capture_env None \<lparr>LSN = 42, Time = 0\<rparr> example_source1)) = [42]"
  using
    Capture_start_position [of example_capture_env example_ident "\<lparr>LSN = 0, Time = 0\<rparr>"
      example_source0 None example_source1]
    Capture_start_position [of example_capture_env example_ident "\<lparr>LSN = 42, Time = 0\<rparr>"
      example_source0 None example_source1]
  by (simp add: example_capture_env_def example_ident_def)

section \<open>The fetch loop: properties\<close>

lemma prepend_pair [simp]: "prepend cs (as, r) = (cs @ as, r)"
  by (simp add: prepend_def)

lemma prepend_prepend [simp]: "prepend cs (prepend ds r) = prepend (cs @ ds) r"
  by (simp add: prepend_def)

lemma prepend_Nil [simp]: "prepend [] r = r"
  by (simp add: prepend_def)

text \<open>A loop that is still running after the answers \<open>pre\<close> goes on with the next
  answers from the state it has reached.\<close>

lemma fetching0_loop_append:
  "fetching0_loop d pre s = (as, Continue s0) \<Longrightarrow>
   fetching0_loop d (pre @ evs) s = prepend as (fetching0_loop d evs s0)"
proof (induction pre arbitrary: s as)
  case Nil
  then show ?case by simp
next
  case (Cons ev pre)
  obtain cs r where it: "fetching0_iter d ev s = (cs, r)"
    by (cases "fetching0_iter d ev s")
  show ?case
  proof (cases r)
    case (Continue s1)
    obtain bs r' where l: "fetching0_loop d pre s1 = (bs, r')"
      by (cases "fetching0_loop d pre s1")
    with Cons.prems it Continue have "r' = Continue s0" and "as = cs @ bs"
      by simp_all
    with Cons.IH [of s1 bs] l it Continue show ?thesis by simp
  next
    case (Emit c s1)
    obtain bs r' where l: "fetching0_loop d pre s1 = (bs, r')"
      by (cases "fetching0_loop d pre s1")
    with Cons.prems it Emit have "r' = Continue s0" and "as = cs @ Forward c # bs"
      by simp_all
    with Cons.IH [of s1 bs] l it Emit show ?thesis by simp
  next
    case (Return e s1)
    with Cons.prems it show ?thesis by simp
  next
    case (Panic s1)
    with Cons.prems it show ?thesis by simp
  qed
qed

lemma fetching0_iter_received:
  assumes "report0 ev s0 = (cs, Continue s1)" and "received ev = Inr msg"
  shows "fetching0_iter d ev s0 = prepend (cs @ [ReceiveMessage]) (dispatch0 d ev msg s1)"
  using assms by (simp add: fetching0_iter_def receive0_def)

lemma fetching1_received:
  assumes "report1 ev p = (cs, p1, None)" and "received ev = Inr msg"
  shows "fetching1 d ev p = map_option (prepend (cs @ [ReceiveMessage])) (dispatch1 d ev msg p1)"
  using assms by (simp add: fetching1_def split: option.splits)

text \<open>
  C5. A keepalive whose payload fails to parse ends the loop of \<^verbatim>\<open>part_000\<close> with
  that error, wherever in the run it arrives and whatever would follow; the
  read step of \<^verbatim>\<open>postgres.go\<close> returns that error with no change.
\<close>

theorem keepalive_parse_error_fatal:
  assumes reach: "fetching0_loop d pre s = (as, Continue s0)"
    and rep: "report0 ev s0 = (cs, Continue s1)"
    and recv: "received ev = Inr (CopyData (PrimaryKeepaliveMessageByteID # rest))"
    and parse: "ParsePrimaryKeepaliveMessage d rest = Inl e"
  shows "fetching0_loop d (pre @ ev # post) s = (as @ cs @ [ReceiveMessage], Return (Some e) s1)
       \<and> (\<forall>p cs1 p1. report1 ev p = (cs1, p1, None) \<longrightarrow>
            fetching1 d ev p = Some (cs1 @ [ReceiveMessage], p1, zero_Change, Some e))"
proof -
  have "dispatch0 d ev (CopyData (PrimaryKeepaliveMessageByteID # rest)) s1 = ([], Return (Some e) s1)"
    using parse by (simp add: dispatch0_def)
  then have "fetching0_iter d ev s0 = (cs @ [ReceiveMessage], Return (Some e) s1)"
    using fetching0_iter_received [OF rep recv, of d] by simp
  then have a: "fetching0_loop d (pre @ ev # post) s = (as @ cs @ [ReceiveMessage], Return (Some e) s1)"
    using fetching0_loop_append [OF reach, of "ev # post"] by simp
  have b: "fetching1 d ev p = Some (cs1 @ [ReceiveMessage], p1, zero_Change, Some e)"
    if "report1 ev p = (cs1, p1, None)" for p cs1 p1
    using fetching1_received [OF that recv, of d] parse by (simp add: dispatch1_def)
  from a b show ?thesis by blast
qed

theorem keepalive_parse_error_fatal_witness:
  "fetching0_loop example_deps
      ([quiet (time_Unix 1000 0)] @ got (CopyData [PrimaryKeepaliveMessageByteID, 1, 2])
         # [quiet (time_Unix 2000 0)]) example_fetch0
    = ([ReceiveMessage] @ [] @ [ReceiveMessage],
       Return (Some (errors_New ''PrimaryKeepaliveMessage must be 17 bytes'')) example_fetch0)
   \<and> fetching1 example_deps (got (CopyData [PrimaryKeepaliveMessageByteID, 1, 2])) example_source1
    = Some ([SendStandbyStatusUpdate 0] @ [ReceiveMessage],
        example_source1\<lparr>nextReportTime := time_Unix 1006 0\<rparr>, zero_Change,
        Some (errors_New ''PrimaryKeepaliveMessage must be 17 bytes''))"
proof -
  have reach: "fetching0_loop example_deps [quiet (time_Unix 1000 0)] example_fetch0
      = ([ReceiveMessage], Continue example_fetch0)"
    by (simp add: fetching0_iter_def report0_def receive0_def quiet_def example_fetch0_def
        time_After_def time_Unix_def)
  have rep: "report0 (got (CopyData [PrimaryKeepaliveMessageByteID, 1, 2])) example_fetch0
      = ([], Continue example_fetch0)"
    by (simp add: report0_def got_def quiet_def example_fetch0_def time_After_def time_Unix_def)
  have recv: "received (got (CopyData [PrimaryKeepaliveMessageByteID, 1, 2]))
      = Inr (CopyData (PrimaryKeepaliveMessageByteID # [1, 2]))"
    by (simp add: got_def)
  have parse: "ParsePrimaryKeepaliveMessage example_deps [1, 2]
      = Inl (errors_New ''PrimaryKeepaliveMessage must be 17 bytes'')"
    by (simp add: example_deps_def pglogrepl_ParsePrimaryKeepaliveMessage_def)
  have rep1: "report1 (got (CopyData [PrimaryKeepaliveMessageByteID, 1, 2])) example_source1
      = ([SendStandbyStatusUpdate 0], example_source1\<lparr>nextReportTime := time_Unix 1006 0\<rparr>, None)"
    by (simp add: report1_def got_def quiet_def example_source1_def time_After_def time_Unix_def
        time_Add_def time_Second_def committedLSN_def)
  from keepalive_parse_error_fatal [OF reach rep recv parse] rep1 show ?thesis by blast
qed

lemma byte_ids_distinct: "XLogDataByteID \<noteq> PrimaryKeepaliveMessageByteID"
  by (simp add: XLogDataByteID_def PrimaryKeepaliveMessageByteID_def)

lemma report0_calls:
  "report0 ev s = (cs, r) \<Longrightarrow> cs = [] \<or> cs = [SendStandbyStatusUpdate (committedLSN (source s))]"
  by (auto simp add: report0_def Let_def split: if_splits option.splits)

lemma report0_forced:
  assumes "time_After (now ev) (nextReportTime0 s)"
  shows "\<exists>r. report0 ev s = ([SendStandbyStatusUpdate (committedLSN (source s))], r)"
  using assms by (simp add: report0_def Let_def split: option.splits)

lemma fetching0_iter_forced:
  assumes "time_After (now ev) (nextReportTime0 s)"
  shows "\<exists>cs r. fetching0_iter d ev s = (SendStandbyStatusUpdate (committedLSN (source s)) # cs, r)"
proof -
  from report0_forced [OF assms] obtain r
    where r: "report0 ev s = ([SendStandbyStatusUpdate (committedLSN (source s))], r)" ..
  show ?thesis
  proof (cases r)
    case (Continue s1)
    obtain bs r' where "receive0 d ev s1 = (bs, r')" by (cases "receive0 d ev s1")
    with r Continue show ?thesis by (simp add: fetching0_iter_def)
  qed (use r in \<open>simp_all add: fetching0_iter_def\<close>)
qed

lemma report1_forced:
  assumes "time_After (now ev) zero_time"
  shows "fst (report1 ev (p\<lparr>nextReportTime := zero_time\<rparr>))
      = [SendStandbyStatusUpdate (committedLSN p)]"
  using assms by (simp add: report1_def committedLSN_def split: option.splits)

text \<open>
  C6. A well-formed keepalive that asks for a reply sets the next report time to
  the zero time, so the next pass sends a status update whatever the deadline
  was (every clock reading is after the zero time); a keepalive that does not
  ask leaves the state of the pass, and with it the deadline, as it was.
  In \<^verbatim>\<open>part_000\<close> this is the loop; in \<^verbatim>\<open>postgres.go\<close> the read step and the
  status check of the next one.
\<close>

theorem keepalive_reply_schedule:
  fixes d :: "'c deps" and ev :: "'c event"
  assumes reach: "fetching0_loop d pre s = (as, Continue s0)"
    and rep: "report0 ev s0 = (cs, Continue s1)"
    and recv: "received ev = Inr (CopyData (PrimaryKeepaliveMessageByteID # rest))"
    and parse: "ParsePrimaryKeepaliveMessage d rest = Inr pkm"
  shows "(ReplyRequested pkm \<longrightarrow>
            fetching0_loop d (pre @ [ev]) s
              = (as @ cs @ [ReceiveMessage], Continue (s1\<lparr>nextReportTime0 := zero_time\<rparr>))
          \<and> (\<forall>ev' :: 'c event. time_After (now ev') zero_time \<longrightarrow>
                (\<exists>cs' r'. fetching0_iter d ev' (s1\<lparr>nextReportTime0 := zero_time\<rparr>)
                   = (SendStandbyStatusUpdate (committedLSN (source s1)) # cs', r'))))
       \<and> (\<not> ReplyRequested pkm \<longrightarrow>
            fetching0_loop d (pre @ [ev]) s = (as @ cs @ [ReceiveMessage], Continue s1))
       \<and> (\<forall>p cs1 p1. report1 ev p = (cs1, p1, None) \<longrightarrow>
            (ReplyRequested pkm \<longrightarrow>
               fetching1 d ev p
                 = Some (cs1 @ [ReceiveMessage], p1\<lparr>nextReportTime := zero_time\<rparr>, zero_Change, None)
               \<and> (\<forall>ev' :: 'c event. time_After (now ev') zero_time \<longrightarrow>
                     fst (report1 ev' (p1\<lparr>nextReportTime := zero_time\<rparr>))
                       = [SendStandbyStatusUpdate (committedLSN p1)]))
          \<and> (\<not> ReplyRequested pkm \<longrightarrow>
               fetching1 d ev p = Some (cs1 @ [ReceiveMessage], p1, zero_Change, None)))"
proof -
  let ?s2 = "s1\<lparr>nextReportTime0 := zero_time\<rparr>"
  have it: "fetching0_iter d ev s0
      = (cs @ [ReceiveMessage], Continue (if ReplyRequested pkm then ?s2 else s1))"
    using fetching0_iter_received [OF rep recv, of d] parse by (simp add: dispatch0_def)
  have loop: "fetching0_loop d (pre @ [ev]) s
      = (as @ cs @ [ReceiveMessage], Continue (if ReplyRequested pkm then ?s2 else s1))"
    using fetching0_loop_append [OF reach, of "[ev]"] it by simp
  have nxt: "\<exists>cs' r'. fetching0_iter d ev' ?s2
      = (SendStandbyStatusUpdate (committedLSN (source s1)) # cs', r')"
    if "time_After (now ev') zero_time" for ev'
    using fetching0_iter_forced [of ev' ?s2 d] that by simp
  have one: "fetching1 d ev p
      = Some (cs1 @ [ReceiveMessage],
              (if ReplyRequested pkm then p1\<lparr>nextReportTime := zero_time\<rparr> else p1),
              zero_Change, None)"
    if "report1 ev p = (cs1, p1, None)" for p cs1 p1
    using fetching1_received [OF that recv, of d] parse by (simp add: dispatch1_def)
  show ?thesis
    using loop nxt one by (simp add: report1_forced)
qed

lemma parse_keepalive_example:
  "ParsePrimaryKeepaliveMessage example_deps
      ([0, 0, 0, 0, 0, 0, 0, 0] @ [0, 0, 0, 0, 0, 0, 0, 0] @ [if b then 1 else 0])
     = Inr \<lparr>ReplyRequested = b\<rparr>"
  by (simp add: example_deps_def pglogrepl_ParsePrimaryKeepaliveMessage_def)

lemma report0_example:
  "report0 (got msg) example_fetch0 = ([], Continue example_fetch0)"
  by (simp add: report0_def got_def quiet_def example_fetch0_def time_After_def time_Unix_def)

lemma report1_example:
  "report1 (got msg) example_source1
     = ([SendStandbyStatusUpdate 0], example_source1\<lparr>nextReportTime := time_Unix 1006 0\<rparr>, None)"
  by (simp add: report1_def got_def quiet_def example_source1_def time_After_def time_Unix_def
      time_Add_def time_Second_def committedLSN_def)

theorem keepalive_reply_schedule_witness:
  "fetching0_loop example_deps ([] @ [got (keepalive_message True)]) example_fetch0
     = ([] @ [] @ [ReceiveMessage], Continue (example_fetch0\<lparr>nextReportTime0 := zero_time\<rparr>))
   \<and> (\<exists>cs' r'. fetching0_iter example_deps (quiet (time_Unix 1001 0))
                   (example_fetch0\<lparr>nextReportTime0 := zero_time\<rparr>)
                 = (SendStandbyStatusUpdate (committedLSN (source example_fetch0)) # cs', r'))
   \<and> fetching0_loop example_deps ([] @ [got (keepalive_message False)]) example_fetch0
     = ([] @ [] @ [ReceiveMessage], Continue example_fetch0)
   \<and> fetching1 example_deps (got (keepalive_message False)) example_source1
     = Some ([SendStandbyStatusUpdate 0] @ [ReceiveMessage],
             example_source1\<lparr>nextReportTime := time_Unix 1006 0\<rparr>, zero_Change, None)
   \<and> fetching1 example_deps (got (keepalive_message True)) example_source1
     = Some ([SendStandbyStatusUpdate 0] @ [ReceiveMessage],
             example_source1\<lparr>nextReportTime := time_Unix 1006 0, nextReportTime := zero_time\<rparr>, zero_Change, None)"
proof -
  have reach: "fetching0_loop example_deps [] example_fetch0 = ([], Continue example_fetch0)"
    by simp
  have recv: "received (got (keepalive_message b))
      = Inr (CopyData (PrimaryKeepaliveMessageByteID
             # [0, 0, 0, 0, 0, 0, 0, 0] @ [0, 0, 0, 0, 0, 0, 0, 0] @ [if b then 1 else 0]))" for b
    by (simp add: got_def keepalive_message_def)
  have after: "time_After (now (quiet (time_Unix 1001 0))) zero_time"
    by (simp add: quiet_def time_After_def zero_time_def time_Unix_def)
  note t = keepalive_reply_schedule [OF reach report0_example recv parse_keepalive_example, of True]
  note f = keepalive_reply_schedule [OF reach report0_example recv parse_keepalive_example, of False]
  from t f after report1_example show ?thesis
    by simp
qed


text \<open>The test for an ignored change comes first: such a change is dropped with no
  refresh, whatever \<^verbatim>\<open>IsDDL\<close> says of it.\<close>

lemma ignored_change_dropped:
  assumes "report0 ev s0 = (cs, Continue s1)"
    and "received ev = Inr (CopyData (XLogDataByteID # rest))"
    and "ParseXLogData d rest = Inr xld"
    and "decoded ev = Inr (Some (Message_Change c))"
    and "Ignore d c"
  shows "fetching0_iter d ev s0 = (cs @ [ReceiveMessage, Decode (WALData xld)], Continue s1)"
  using assms
  by (simp add: fetching0_iter_def receive0_def dispatch0_def wal0_def byte_ids_distinct)


lemma parse_xlog_example:
  "ParseXLogData example_deps
      ([0, 0, 0, 0, 0, 0, 0, start] @ [0, 0, 0, 0, 0, 0, 0, 0] @ [0, 0, 0, 0, 0, 0, 0, 0] @ [1])
     = Inr \<lparr>WALStart = ucast start, WALData = [1]\<rparr>"
  by (simp add: example_deps_def pglogrepl_ParseXLogData_def be_uint64_def)

lemma got_wal_simps:
  "received (got_wal start m) = Inr (CopyData (XLogDataByteID
      # [0, 0, 0, 0, 0, 0, 0, start] @ [0, 0, 0, 0, 0, 0, 0, 0] @ [0, 0, 0, 0, 0, 0, 0, 0] @ [1]))"
  "decoded (got_wal start m) = Inr (Some m)"
  "refreshed (got_wal start m) = None"
  by (simp_all add: got_wal_def got_def quiet_def wal_message_def)

lemma report0_got_wal:
  "report0 (got_wal start m) example_fetch0 = ([], Continue example_fetch0)"
  "report0 ((got_wal start m)\<lparr>refreshed := r\<rparr>) example_fetch0 = ([], Continue example_fetch0)"
  by (simp_all add: report0_def got_wal_def got_def quiet_def example_fetch0_def time_After_def
      time_Unix_def)



lemma forwards_append [simp]: "forwards (as @ bs) = forwards as @ forwards bs"
  by (induction as rule: forwards.induct) simp_all

lemma subseq_set_subset: "subseq xs ys \<Longrightarrow> set xs \<subseteq> set ys"
  by (auto elim: list_emb_set)

lemma sorted_subseq:
  fixes ys :: "'a::linorder list"
  shows "subseq xs ys \<Longrightarrow> sorted ys \<Longrightarrow> sorted xs"
proof (induction rule: list_emb.induct)
  case (list_emb_Cons2 x y xs ys)
  from list_emb_Cons2.hyps(2) have "set xs \<subseteq> set ys"
    by (rule subseq_set_subset)
  with list_emb_Cons2 show ?case by auto
qed simp_all

lemma wal0_emits:
  assumes "wal0 d ev xld s = (cs, r)"
  shows "forwards cs = []"
    and "r = Emit c s' \<Longrightarrow> LSN (Checkpoint c) = WALStart xld + of_nat (length (WALData xld))"
  using assms
  by (auto simp add: wal0_def emit0_def Let_def
      split: sum.splits option.splits Message.splits if_splits)

lemma dispatch0_emits:
  assumes "dispatch0 d ev msg s = (cs, r)" and "received ev = Inr msg"
  shows "forwards cs = []"
    and "r = Emit c s' \<Longrightarrow> wal_end d ev = Some (LSN (Checkpoint c))"
  using assms wal0_emits [of d ev _ s cs r]
  by (auto simp add: dispatch0_def wal_end_def byte_ids_distinct
      split: BackendMessage.splits list.splits sum.splits if_splits)

lemma fetching0_iter_emits:
  assumes "fetching0_iter d ev s = (cs, r)"
  shows "forwards cs = []"
    and "r = Emit c s' \<Longrightarrow> wal_end d ev = Some (LSN (Checkpoint c))"
proof -
  obtain cs0 r0 where rep: "report0 ev s = (cs0, r0)" by (cases "report0 ev s")
  from report0_calls [OF rep] have f0: "forwards cs0 = []" by auto
  have "forwards cs = [] \<and> (r = Emit c s' \<longrightarrow> wal_end d ev = Some (LSN (Checkpoint c)))"
  proof (cases r0)
    case (Continue s1)
    show ?thesis
    proof (cases "received ev")
      case (Inl e)
      with assms rep Continue f0 show ?thesis
        by (auto simp add: fetching0_iter_def receive0_def split: if_splits)
    next
      case (Inr msg)
      obtain ds r1 where disp: "dispatch0 d ev msg s1 = (ds, r1)" by (cases "dispatch0 d ev msg s1")
      with assms rep Continue Inr have "cs = cs0 @ ReceiveMessage # ds" and "r = r1"
        by (simp_all add: fetching0_iter_def receive0_def)
      with dispatch0_emits [OF disp Inr] f0 show ?thesis by simp
    qed
  next
    case (Emit c1 s1)
    with rep show ?thesis
      by (auto simp add: report0_def Let_def split: if_splits option.splits)
  next
    case (Return e s1)
    with assms rep f0 show ?thesis by (auto simp add: fetching0_iter_def)
  next
    case (Panic s1)
    with assms rep f0 show ?thesis by (auto simp add: fetching0_iter_def)
  qed
  then show "forwards cs = []"
    and "r = Emit c s' \<Longrightarrow> wal_end d ev = Some (LSN (Checkpoint c))" by simp_all
qed

lemma wal_ends_Cons:
  "wal_ends d (ev # evs) = (case wal_end d ev of None \<Rightarrow> wal_ends d evs | Some l \<Rightarrow> l # wal_ends d evs)"
  by (simp add: wal_ends_def split: option.splits)

lemma emitted_LSNs_subseq:
  "subseq (emitted_LSNs (fst (fetching0_loop d evs s))) (wal_ends d evs)"
proof (induction evs arbitrary: s)
  case Nil
  then show ?case by (simp add: emitted_LSNs_def wal_ends_def)
next
  case (Cons ev evs)
  obtain cs r where it: "fetching0_iter d ev s = (cs, r)" by (cases "fetching0_iter d ev s")
  note em = fetching0_iter_emits [OF it]
  show ?case
  proof (cases r)
    case (Continue s1)
    with it em(1) have "emitted_LSNs (fst (fetching0_loop d (ev # evs) s))
        = emitted_LSNs (fst (fetching0_loop d evs s1))"
      by (simp add: emitted_LSNs_def prepend_def)
    with Cons.IH [of s1] show ?thesis
      by (auto simp add: wal_ends_Cons split: option.splits)
  next
    case (Emit c s1)
    with it em(1) have "emitted_LSNs (fst (fetching0_loop d (ev # evs) s))
        = LSN (Checkpoint c) # emitted_LSNs (fst (fetching0_loop d evs s1))"
      by (simp add: emitted_LSNs_def prepend_def)
    with Cons.IH [of s1] em(2) [OF Emit] show ?thesis
      by (simp add: wal_ends_Cons)
  next
    case (Return e s1)
    with it em(1) show ?thesis by (simp add: emitted_LSNs_def)
  next
    case (Panic s1)
    with it em(1) show ?thesis by (simp add: emitted_LSNs_def)
  qed
qed

lemma wal1_emits:
  assumes "wal1 d ev xld p = (cs, p', ch, err)" and "Message ch \<noteq> None"
  shows "LSN (Checkpoint ch) = WALStart xld + of_nat (length (WALData xld))"
  using assms
  by (auto simp add: wal1_def emit1_def zero_Change_def
      split: sum.splits option.splits if_splits)

lemma dispatch1_emits:
  assumes "dispatch1 d ev msg p = Some (cs, p', ch, err)" and "received ev = Inr msg"
    and "Message ch \<noteq> None"
  shows "wal_end d ev = Some (LSN (Checkpoint ch))"
  using assms
  by (auto simp add: dispatch1_def wal_end_def zero_Change_def byte_ids_distinct
      split: BackendMessage.splits list.splits sum.splits if_splits dest: wal1_emits)

lemma fetching1_emits:
  assumes "fetching1 d ev p = Some (cs, p', ch, err)" and "Message ch \<noteq> None"
  shows "wal_end d ev = Some (LSN (Checkpoint ch))"
proof -
  obtain cs0 p0 e0 where rep: "report1 ev p = (cs0, p0, e0)" by (cases "report1 ev p")
  show ?thesis
  proof (cases e0)
    case (Some e)
    with assms rep show ?thesis by (auto simp add: fetching1_def zero_Change_def)
  next
    case None
    show ?thesis
    proof (cases "received ev")
      case (Inl e)
      with assms rep None show ?thesis by (auto simp add: fetching1_def zero_Change_def)
    next
      case (Inr msg)
      with assms rep None obtain ds where "dispatch1 d ev msg p0 = Some (ds, p', ch, err)"
        by (auto simp add: fetching1_def prepend_def split: option.splits)
      from dispatch1_emits [OF this Inr assms(2)] show ?thesis .
    qed
  qed
qed

lemma wal_end_got_wal: "wal_end example_deps (got_wal start m) = Some (ucast start + 1)"
  using parse_xlog_example [of start] by (simp add: wal_end_def got_wal_simps)

lemma fetching0_iter_got_wal_Commit:
  "fetching0_iter example_deps (got_wal start Message_Commit) example_fetch0
     = ([ReceiveMessage, Decode [1]],
        Emit \<lparr>Checkpoint = \<lparr>LSN = ucast start + 1, Time = zero_time\<rparr>,
              Message = Some Message_Commit\<rparr> example_fetch0)"
proof -
  have rep: "report0 (got_wal start Message_Commit) example_fetch0 = ([], Continue example_fetch0)"
    by (rule report0_got_wal(1))
  have recv: "received (got_wal start Message_Commit) = Inr (CopyData (XLogDataByteID
      # [0, 0, 0, 0, 0, 0, 0, start] @ [0, 0, 0, 0, 0, 0, 0, 0] @ [0, 0, 0, 0, 0, 0, 0, 0] @ [1]))"
    by (rule got_wal_simps(1))
  from fetching0_iter_received [OF rep recv, of example_deps] parse_xlog_example [of start]
  show ?thesis
    by (simp add: dispatch0_def byte_ids_distinct wal0_def got_wal_simps emit0_def
        example_fetch0_def example_source0_def)
qed

text \<open>
  C2, as amended. Every change the loop of \<^verbatim>\<open>part_000\<close> sends, and every change the
  read step of \<^verbatim>\<open>postgres.go\<close> returns, carries as its LSN the end offset of the
  WAL record of that pass: the start offset plus the length of the payload, as a
  64-bit sum. The LSNs sent during a run are, in order, end offsets of records
  received (a subsequence of them: the loop neither reorders nor checks them),
  so they are non-decreasing whenever the end offsets received are.
\<close>

theorem emitted_LSN_is_record_end:
  "(\<forall>cs c s'. fetching0_iter d ev s = (cs, Emit c s') \<longrightarrow>
       wal_end d ev = Some (LSN (Checkpoint c)))
   \<and> (\<forall>cs p' ch err. fetching1 d ev p = Some (cs, p', ch, err) \<longrightarrow> Message ch \<noteq> None \<longrightarrow>
       wal_end d ev = Some (LSN (Checkpoint ch)))
   \<and> subseq (emitted_LSNs (fst (fetching0_loop d evs s0))) (wal_ends d evs)
   \<and> (sorted (wal_ends d evs) \<longrightarrow> sorted (emitted_LSNs (fst (fetching0_loop d evs s0))))"
  using fetching0_iter_emits(2) [of d ev s] fetching1_emits [of d ev p]
    emitted_LSNs_subseq [of d evs s0] sorted_subseq
  by blast

theorem emitted_LSN_is_record_end_witness:
  "wal_end example_deps (got_wal 10 Message_Commit) = Some 11
   \<and> wal_ends example_deps [got_wal 10 Message_Commit, got_wal 100 Message_Commit] = [11, 101]
   \<and> sorted (emitted_LSNs (fst (fetching0_loop example_deps
         [got_wal 10 Message_Commit, got_wal 100 Message_Commit] example_fetch0)))"
proof -
  have w: "wal_ends example_deps [got_wal 10 Message_Commit, got_wal 100 Message_Commit] = [11, 101]"
    by (simp add: wal_ends_def wal_end_got_wal)
  from emitted_LSN_is_record_end
    [of example_deps "got_wal 10 Message_Commit" example_fetch0 example_source1
      "[got_wal 10 Message_Commit, got_wal 100 Message_Commit]" example_fetch0]
    fetching0_iter_got_wal_Commit [of 10] w
  show ?thesis by simp
qed

text \<open>The loop does not order what it receives: a record that ends at 101 followed
  by one that ends at 11 gives the checkpoints 101, 11.\<close>

theorem emitted_LSNs_not_ordered:
  "emitted_LSNs (fst (fetching0 example_deps (time_Unix 1000 0)
      [got_wal 100 Message_Commit, got_wal 10 Message_Commit] example_source0)) = [101, 11]
   \<and> \<not> sorted (emitted_LSNs (fst (fetching0 example_deps (time_Unix 1000 0)
      [got_wal 100 Message_Commit, got_wal 10 Message_Commit] example_source0)))"
proof -
  have s: "\<lparr>source = example_source0, nextReportTime0 = time_Add (time_Unix 1000 0) reportInterval\<rparr>
      = example_fetch0"
    by (simp add: example_fetch0_def time_Add_def time_Unix_def reportInterval_def time_Second_def)
  show ?thesis
    by (simp add: fetching0_def s fetching0_iter_got_wal_Commit emitted_LSNs_def)
qed

section \<open>Capture: cleanup on error\<close>

lemma Capture1_error_cleanup:
  assumes "snd (snd (Capture1 env base_err cp p)) = Some e"
  shows "\<not> is_open (replConn (fst (snd (Capture1 env base_err cp p))))
       \<and> \<not> is_open (setupConn (fst (snd (Capture1 env base_err cp p))))"
  using assms
  by (auto simp add: Capture1_def Capture1_body_def cleanup1_def is_open_def Let_def
      split: option.splits sum.splits prod.splits if_splits)

lemma Capture0_error_no_cleanup:
  assumes "repl_connect_err env = None" and "snd (snd (Capture0 env cp p)) = Some e"
  shows "is_open (replConn (fst (snd (Capture0 env cp p))))
       \<and> replConn_Close \<notin> set (fst (Capture0 env cp p))"
  using assms
  by (auto simp add: Capture0_def is_open_def Let_def split: option.splits sum.splits)

text \<open>
  C9. \<^verbatim>\<open>Capture\<close> of \<^verbatim>\<open>postgres.go\<close> runs \<^verbatim>\<open>cleanup\<close> before it returns an error
  (\<open>Capture1_error_cleanup\<close>). \<^verbatim>\<open>Capture\<close> of \<^verbatim>\<open>part_000\<close> does not: when the connection
  is made and the identify step fails, it returns the error with the replication
  connection still open and no close call made.
\<close>

theorem Capture0_error_leaves_connection_open:
  "snd (snd (Capture0 identify_fails \<lparr>LSN = 0, Time = zero_time\<rparr> example_source0))
      = Some (errors_New ''identify failed'')
   \<and> fst (Capture0 identify_fails \<lparr>LSN = 0, Time = zero_time\<rparr> example_source0)
      = [pgconn_Connect ''repl'', IdentifySystem]
   \<and> is_open (replConn (fst (snd
        (Capture0 identify_fails \<lparr>LSN = 0, Time = zero_time\<rparr> example_source0))))
   \<and> fst (Capture1 identify_fails None \<lparr>LSN = 0, Time = zero_time\<rparr> example_source1)
      = [pgconn_Connect ''repl'', IdentifySystem, setupConn_Close, replConn_Close]
   \<and> \<not> is_open (replConn (fst (snd
        (Capture1 identify_fails None \<lparr>LSN = 0, Time = zero_time\<rparr> example_source1))))"
  by code_simp

section \<open>The goroutine: properties\<close>

lemma report0_source: "source (flow_state (snd (report0 ev s))) = source s"
  by (simp add: report0_def Let_def split: option.splits)

lemma wal0_source:
  "\<exists>t. source (flow_state (snd (wal0 d ev xld s))) = (source s)\<lparr>commitTime := t\<rparr>"
  apply (simp add: wal0_def Let_def split: sum.splits option.splits Message.splits)
  apply (auto intro: exI [of _ "commitTime (source s)"])
  done

lemma source_commitTime_same: "\<exists>t. source s = (source s)\<lparr>commitTime := t\<rparr>"
  by (rule exI [of _ "commitTime (source s)"]) simp

lemma dispatch0_source:
  "\<exists>t. source (flow_state (snd (dispatch0 d ev msg s))) = (source s)\<lparr>commitTime := t\<rparr>"
  using wal0_source [of d ev _ s] source_commitTime_same [of s]
  by (simp add: dispatch0_def split: BackendMessage.splits list.splits sum.splits)

lemma receive0_source:
  "\<exists>t. source (flow_state (snd (receive0 d ev s))) = (source s)\<lparr>commitTime := t\<rparr>"
  using dispatch0_source [of d ev _ s] source_commitTime_same [of s]
  by (simp add: receive0_def prepend_def split: sum.splits)

lemma fetching0_iter_source:
  "\<exists>t. source (flow_state (snd (fetching0_iter d ev s))) = (source s)\<lparr>commitTime := t\<rparr>"
proof -
  obtain cs r where rep: "report0 ev s = (cs, r)" by (cases "report0 ev s")
  with report0_source [of ev s] have src: "source (flow_state r) = source s" by simp
  show ?thesis
  proof (cases r)
    case (Continue s1)
    with src have "source s1 = source s" by simp
    with receive0_source [of d ev s1] rep Continue show ?thesis
      by (simp add: fetching0_iter_def prepend_def)
  qed (use rep src source_commitTime_same [of s] in \<open>simp_all add: fetching0_iter_def\<close>)
qed

lemma run_dead: "\<not> process_alive s \<Longrightarrow> run d ms s = s"
  by (induction ms) (simp_all add: step_def)

text \<open>
  C3, as amended. When a pass of the loop returns an error, the goroutine that
  \<^verbatim>\<open>Capture\<close> started hands it to \<^verbatim>\<open>log.Fatalf\<close>, which ends the process: the output
  channel and the stop channel are not closed, the connections are not closed,
  and nothing runs afterwards.
\<close>

theorem fetch_error_exits_process:
  assumes fetching: "goroutine s = In_fetching"
    and err: "snd (fetching0_iter d ev (fetch s)) = Return (Some e) f"
  shows "goroutine (step d (Go ev) s) = Fatal e
       \<and> \<not> process_alive (step d (Go ev) s)
       \<and> changes (step d (Go ev) s) = changes s
       \<and> stop (source (fetch (step d (Go ev) s))) = stop (source (fetch s))
       \<and> setupConn (source (fetch (step d (Go ev) s))) = setupConn (source (fetch s))
       \<and> replConn (source (fetch (step d (Go ev) s))) = replConn (source (fetch s))
       \<and> (\<forall>ms. run d ms (step d (Go ev) s) = step d (Go ev) s)"
proof -
  have st: "step d (Go ev) s = s\<lparr>fetch := f, goroutine := Fatal e\<rparr>"
    using fetching err by (simp add: step_def process_alive_def go_step_def)
  from fetching0_iter_source [of d ev "fetch s"] err
  obtain t where src: "source f = (source (fetch s))\<lparr>commitTime := t\<rparr>" by auto
  have dead: "\<not> process_alive (step d (Go ev) s)"
    by (simp add: st process_alive_def)
  from st src dead run_dead [OF dead, of d] show ?thesis by simp
qed

text \<open>The errors a pass can meet, each of which it returns: a receive failure that
  is not a timeout, a message of an unexpected kind, WAL data that does not
  parse, a decoder failure, a failed status update (for a keepalive that does
  not parse and for a failed refresh see C5 and C7).\<close>

lemma fetching0_iter_errors:
  assumes rep: "report0 ev s = (cs, Continue s1)"
  shows "received ev = Inl e \<Longrightarrow> \<not> Timeout e \<Longrightarrow>
           snd (fetching0_iter d ev s) = Return (Some e) s1"
    and "received ev = Inr OtherMessage \<Longrightarrow>
           snd (fetching0_iter d ev s) = Return (Some (errors_New ''unexpected message'')) s1"
    and "received ev = Inr (CopyData (XLogDataByteID # rest)) \<Longrightarrow> ParseXLogData d rest = Inl e \<Longrightarrow>
           snd (fetching0_iter d ev s) = Return (Some e) s1"
    and "received ev = Inr (CopyData (XLogDataByteID # rest)) \<Longrightarrow> ParseXLogData d rest = Inr xld \<Longrightarrow>
           decoded ev = Inl e \<Longrightarrow> snd (fetching0_iter d ev s) = Return (Some e) s1"
  using rep
  by (simp_all add: fetching0_iter_def receive0_def dispatch0_def wal0_def byte_ids_distinct)

lemma report0_status_error:
  assumes "time_After (now ev) (nextReportTime0 s)" and "status_err ev = Some e"
  shows "snd (fetching0_iter d ev s) = Return (Some e) s"
  using assms by (simp add: fetching0_iter_def report0_def)

theorem fetch_error_exits_process_witness:
  "goroutine (step example_deps (Go decode_fails) example_system) = Fatal (errors_New ''decode failed'')
   \<and> \<not> process_alive (step example_deps (Go decode_fails) example_system)
   \<and> \<not> closed (changes (step example_deps (Go decode_fails) example_system))
   \<and> run example_deps [Call_Stop, Go report_due, Consume]
        (step example_deps (Go decode_fails) example_system)
      = step example_deps (Go decode_fails) example_system"
proof -
  have g: "goroutine example_system = In_fetching"
    by code_simp
  have e: "snd (fetching0_iter example_deps decode_fails (fetch example_system))
      = Return (Some (errors_New ''decode failed'')) (fetch example_system)"
    by code_simp
  have c: "\<not> closed (changes example_system)"
    by code_simp
  note t = fetch_error_exits_process [OF g e]
  from t have r: "run example_deps [Call_Stop, Go report_due, Consume]
        (step example_deps (Go decode_fails) example_system)
      = step example_deps (Go decode_fails) example_system"
    by blast
  from t c r show ?thesis by simp
qed

text \<open>A message of an unexpected kind ends the process, with the output channel
  still open: no terminal signal reaches the consumer.\<close>

theorem unexpected_message_exits_process:
  "goroutine (run example_deps [Go (got OtherMessage)] example_system)
      = Fatal (errors_New ''unexpected message'')
   \<and> \<not> process_alive (run example_deps [Go (got OtherMessage)] example_system)
   \<and> \<not> closed (changes (run example_deps [Go (got OtherMessage)] example_system))"
  by code_simp

section \<open>Stop: properties\<close>

text \<open>
  C4. \<^verbatim>\<open>Stop\<close> waits for the stop channel, which the goroutine closes after the
  output channel and before \<^verbatim>\<open>cleanup\<close>. In the run below \<^verbatim>\<open>Stop\<close> has returned
  and the output channel is closed, while the goroutine has not yet run
  \<^verbatim>\<open>cleanup\<close>: it has not exited and both connections are open. They are closed
  one goroutine step later.
\<close>

theorem Stop_returns_before_cleanup:
  "stopping (run example_deps stop_schedule example_system) = Stop_returned
   \<and> goroutine (run example_deps stop_schedule example_system) = At_cleanup False
   \<and> is_open (setupConn (source (fetch (run example_deps stop_schedule example_system))))
   \<and> is_open (replConn (source (fetch (run example_deps stop_schedule example_system))))
   \<and> closed (changes (run example_deps stop_schedule example_system))
   \<and> goroutine (run example_deps (stop_schedule @ [Go report_due]) example_system) = Finished
   \<and> setupConn (source (fetch (run example_deps (stop_schedule @ [Go report_due]) example_system))) = None
   \<and> replConn (source (fetch (run example_deps (stop_schedule @ [Go report_due]) example_system))) = None"
  by code_simp

text \<open>What does hold when \<^verbatim>\<open>Stop\<close> has returned, in every run that starts from a
  successful \<^verbatim>\<open>Capture\<close>: the output channel is closed, and every change put on it
  was either taken by the consumer or is still in its buffer.\<close>

lemma cleanup0_stop: "stop (snd (cleanup0 p)) = stop p"
  by (simp add: cleanup0_def Let_def split: prod.splits)

lemma stop_inv_spawn: "stop p = Some False \<Longrightarrow> stop_inv (spawn p make_chan t0)"
  by (simp add: stop_inv_def spawn_def make_chan_def channels_at_def)

lemma stop_inv_go_step:
  assumes "stop_inv s"
  shows "stop_inv (go_step d ev s)"
proof (cases "goroutine s")
  case In_fetching
  from fetching0_iter_source [of d ev "fetch s"]
  obtain t where src: "source (flow_state (snd (fetching0_iter d ev (fetch s))))
      = (source (fetch s))\<lparr>commitTime := t\<rparr>" ..
  show ?thesis
  proof (cases "snd (fetching0_iter d ev (fetch s))")
    case (Return eo f)
    with src assms In_fetching show ?thesis
      by (cases eo) (auto simp add: go_step_def stop_inv_def channels_at_def split: if_splits)
  qed (use src assms In_fetching in
      \<open>auto simp add: go_step_def stop_inv_def channels_at_def split: if_splits\<close>)
next
  case (At_close_stop pn)
  with assms show ?thesis
    by (auto simp add: go_step_def stop_inv_def channels_at_def set_source_def split: if_splits)
next
  case (At_cleanup pn)
  with assms show ?thesis
    by (auto simp add: go_step_def stop_inv_def channels_at_def set_source_def cleanup0_stop
        split: if_splits)
qed (use assms in \<open>auto simp add: go_step_def stop_inv_def channels_at_def split: if_splits\<close>)

lemma stop_inv_step:
  assumes "stop_inv s"
  shows "stop_inv (step d m s)"
proof (cases m)
  case (Go ev)
  with assms stop_inv_go_step [OF assms, of d ev] show ?thesis by (simp add: step_def)
next
  case Call_Stop
  with assms show ?thesis
    by (auto simp add: step_def Stop_step_def stop_inv_def set_source_def channels_at_def
        split: stop_call.splits option.splits goroutine.splits if_splits)
next
  case (Call_Commit cp)
  with assms show ?thesis
    by (auto simp add: step_def stop_inv_def set_source_def Commit_def split: if_splits)
next
  case Consume
  with assms show ?thesis
    by (auto simp add: step_def consume_step_def stop_inv_def split: list.splits if_splits)
qed

lemma stop_inv_run: "stop_inv s \<Longrightarrow> stop_inv (run d ms s)"
  by (induction ms arbitrary: s) (simp_all add: stop_inv_step)

lemma Stop_returned_channel_closed:
  assumes "stop p = Some False"
    and "stopping (run d ms (spawn p make_chan t0)) = Stop_returned"
  shows "closed (changes (run d ms (spawn p make_chan t0)))
       \<and> sent (run d ms (spawn p make_chan t0))
           = consumed (run d ms (spawn p make_chan t0)) @ buf (changes (run d ms (spawn p make_chan t0)))"
proof -
  have "stop_inv (run d ms (spawn p make_chan t0))"
    using assms(1) by (intro stop_inv_run stop_inv_spawn)
  with assms(2) show ?thesis
    by (auto simp add: stop_inv_def channels_at_def split: goroutine.splits)
qed

section \<open>DDL changes that are ignored\<close>


end
